theory Spec2Isabelle
  imports Main
begin

section \<open>JavaScript values used by the rule engine\<close>

text \<open>
  A thrown value. \<open>new Error(msg)\<close> (and its subclasses, by their \<open>name\<close>) is
  \<open>ErrorObj name msg\<close>; a thrown string is \<open>ThrownString\<close>. \<open>String_js\<close> is
  \<open>String(err)\<close>: for an error object it is \<open>Error.prototype.toString\<close>.
\<close>

datatype js_thrown = ErrorObj string string | ThrownString string

fun String_js :: "js_thrown \<Rightarrow> string" where
  "String_js (ThrownString s) = s"
| "String_js (ErrorObj nm msg) =
     (if nm = [] then msg else if msg = [] then nm else nm @ '': '' @ msg)"

datatype json =
    JNull
  | JBool bool
  | JNum int
  | JStr string
  | JArr "json list"
  | JObj "(string \<times> json) list"

text \<open>
  \<open>String.prototype.toUpperCase\<close> on the ASCII range (HTTP method tokens are ASCII):
  the letters a..z (codes 97..122) move down by 32, every other character stays.
\<close>

definition upper_char :: "char \<Rightarrow> char" where
  "upper_char c =
     (let n = (of_char c :: nat) in if 97 \<le> n \<and> n \<le> 122 then char_of (n - 32) else c)"

definition toUpperCase :: "string \<Rightarrow> string" where
  "toUpperCase s = map upper_char s"

text \<open>Truthiness of an optional string: \<open>undefined\<close> and \<open>""\<close> are falsy.\<close>

fun truthy :: "string option \<Rightarrow> bool" where
  "truthy None = False"
| "truthy (Some s) = (s \<noteq> [])"

text \<open>\<open>a || b\<close> on optional strings.\<close>

definition js_or :: "string option \<Rightarrow> string option \<Rightarrow> string option" where
  "js_or a b = (if truthy a then a else b)"

text \<open>
  The request as the rule engine reads it: \<open>req.method\<close> and \<open>req.path\<close> (the path
  without the query string).
\<close>

record request =
  req_method :: string
  req_path :: string

text \<open>
  A \<open>RegExp\<close>: its source, its flags and its \<open>test\<close> on a string. The regular
  expression engine is the runtime's, so matching is a parameter of the value (the
  \<open>lastIndex\<close> state of a global or sticky expression is not modelled).
\<close>

datatype regexp = RegExp (re_source: string) (re_flags: string) (re_test: "string \<Rightarrow> bool")

datatype path_spec = PathString string | PathRegExp regexp

text \<open>\<open>String(path)\<close>: a string is itself, a RegExp prints as \<open>/source/flags\<close>.\<close>

fun path_toString :: "path_spec \<Rightarrow> string" where
  "path_toString (PathString s) = s"
| "path_toString (PathRegExp re) = ''/'' @ re_source re @ ''/'' @ re_flags re"

text \<open>The path match of both builder forms: exact equality, or the RegExp's test.\<close>

fun path_matches :: "path_spec \<Rightarrow> string \<Rightarrow> bool" where
  "path_matches (PathString s) p = (p = s)"
| "path_matches (PathRegExp re) p = re_test re p"

section \<open>Rules (utils.ts)\<close>

text \<open>
  What a handler does with \<open>(req, res, next)\<close> until it settles: the writes it makes
  on the response and its calls of the continuation, in order, and then whether it
  returned (or its promise resolved) or threw (or its promise rejected). A \<open>Write\<close> is
  a response the handler sent (\<open>res.status(s).json(b)\<close> and the like, after which
  \<open>res.headersSent\<close> is true). A handler that never settles is not modelled.
\<close>

datatype effect = Write nat json | CallNext

datatype completion = Returned | Threw js_thrown

type_synonym rule_handler = "request \<Rightarrow> effect list \<times> completion"

text \<open>
  \<open>interface OverrideRule\<close>. The data fields are a record of their own, because the
  dispatcher calls \<open>rule.test(req)\<close> with the rule object as receiver: a \<open>test\<close> may
  read the object's current fields through \<open>this\<close>, so it takes them as its first
  argument. \<open>None\<close> is an absent (undefined) field.
\<close>

record rule_fields =
  name :: "string option"
  enabled :: "bool option"
  methods :: "string list"

type_synonym rule_test = "rule_fields \<Rightarrow> request \<Rightarrow> js_thrown + bool"

record override_rule = rule_fields +
  test :: rule_test
  handler :: rule_handler

definition this_fields :: "override_rule \<Rightarrow> rule_fields" where
  "this_fields r = \<lparr>name = name r, enabled = enabled r, methods = methods r\<rparr>"

text \<open>\<open>rule.test(req)\<close>: the call the dispatcher makes, on the rule as it is now.\<close>

definition call_test :: "override_rule \<Rightarrow> request \<Rightarrow> js_thrown + bool" where
  "call_test r req = test r (this_fields r) req"




text \<open>\<open>interface RuleConfig\<close>; the custom \<open>test\<close> is a \<open>RuleTest\<close> of the request.\<close>

record rule_config =
  cfg_name :: "string option"
  cfg_enabled :: "bool option"
  cfg_methods :: "string list option"
  cfg_path :: "path_spec option"
  cfg_test :: "(request \<Rightarrow> js_thrown + bool) option"
  cfg_handler :: rule_handler

text \<open>
  The fourth argument of the signature form, \<open>d?: { name?: string; enabled?: boolean }\<close>.
\<close>

record rule_options =
  opt_name :: "string option"
  opt_enabled :: "bool option"

datatype method_arg = OneMethod string | MethodArray "string list"

text \<open>
  The two overloads of \<open>rule\<close>: \<open>rule(config)\<close> and
  \<open>rule(method, path, handler, options?)\<close>.
\<close>

datatype rule_args =
    ConfigForm rule_config
  | SignatureForm method_arg path_spec rule_handler "rule_options option"

text \<open>
  \<open>rule\<close>. The config form throws when neither \<open>path\<close> nor \<open>test\<close> is given
  (\<open>Inl\<close>); the closures \<open>testFn\<close> and \<open>test\<close> use the constants \<open>enabled\<close> and
  \<open>methods\<close> computed at construction and ignore their receiver. In the config form
  without a custom test, \<open>regex!.test\<close> on a missing path would be a TypeError; the
  check before it makes that branch unreachable.
\<close>

fun rule :: "rule_args \<Rightarrow> js_thrown + override_rule" where
  "rule (ConfigForm cfg) =
     (let enabled_c = (cfg_enabled cfg \<noteq> Some False);
          methods_c = map toUpperCase
            (case cfg_methods cfg of
               None \<Rightarrow> [''GET'']
             | Some [] \<Rightarrow> [''GET'']
             | Some (m # ms) \<Rightarrow> m # ms);
          hasPath = (cfg_path cfg \<noteq> None)
      in if \<not> hasPath \<and> cfg_test cfg = None
         then Inl (ErrorObj ''Error'' ''rule(config) requires either path or test'')
         else
           (let testFn =
                  (case cfg_test cfg of
                     Some custom \<Rightarrow>
                       (\<lambda>this req.
                          if \<not> enabled_c then Inr False
                          else if toUpperCase (req_method req) \<notin> set methods_c then Inr False
                          else custom req)
                   | None \<Rightarrow>
                       (\<lambda>this req.
                          if \<not> enabled_c then Inr False
                          else if toUpperCase (req_method req) \<notin> set methods_c then Inr False
                          else (case cfg_path cfg of
                                  Some p \<Rightarrow> Inr (path_matches p (req_path req))
                                | None \<Rightarrow>
                                    Inl (ErrorObj ''TypeError''
                                           ''Cannot read properties of null''))));
                name_c = js_or (cfg_name cfg) (map_option path_toString (cfg_path cfg))
            in Inr \<lparr>name = (if truthy name_c then name_c else None),
                    enabled = Some enabled_c,
                    methods = methods_c,
                    test = testFn,
                    handler = cfg_handler cfg\<rparr>))"
| "rule (SignatureForm method_a path_a handler_a options) =
     (let methods_c = map toUpperCase
            (case method_a of MethodArray ms \<Rightarrow> ms | OneMethod m \<Rightarrow> [m]);
          enabled_c = ((case options of None \<Rightarrow> None | Some d \<Rightarrow> opt_enabled d) \<noteq> Some False)
      in Inr \<lparr>name = Some (path_toString path_a),
              enabled = Some enabled_c,
              methods = methods_c,
              test = (\<lambda>this req.
                        let m = toUpperCase (if req_method req = [] then [] else req_method req)
                        in if \<not> enabled_c then Inr False
                           else if m \<notin> set methods_c then Inr False
                           else Inr (path_matches path_a (req_path req))),
              handler = handler_a\<rparr>)"

section \<open>The rule loader (main.ts, finalize and store metadata)\<close>

record rule_meta =
  meta_file :: string
  meta_export :: "string option"
  meta_id :: string

record collected =
  col_rule :: override_rule
  col_exportName :: "string option"

text \<open>
  One turn of the loop over \<open>collected\<close>: the export name is assigned only when the
  rule has no (truthy) name; the metadata is kept beside the rule.
\<close>

definition finalize :: "string \<Rightarrow> collected \<Rightarrow> override_rule \<times> rule_meta" where
  "finalize rel c =
     (let r0 = col_rule c;
          exportName = col_exportName c;
          r = (if truthy exportName \<and> \<not> truthy (name r0) then r0\<lparr>name := exportName\<rparr> else r0);
          ident = rel @ (case exportName of
                           None \<Rightarrow> []
                         | Some e \<Rightarrow> (if e = [] then [] else '':'' @ e))
      in (r, \<lparr>meta_file = rel, meta_export = exportName, meta_id = ident\<rparr>))"

text \<open>The rules a module contributes to \<open>overrides\<close>, in order.\<close>

definition load_collected :: "string \<Rightarrow> collected list \<Rightarrow> override_rule list" where
  "load_collected rel cs = map (\<lambda>c. fst (finalize rel c)) cs"

section \<open>The override dispatch middleware (main.ts)\<close>

text \<open>
  What the middleware does for one request, as the sequence of its observable steps:
  evaluating a rule's test, marking the response, logging, invoking a handler (whose own
  effects follow, tagged with the rule's index), writing the error response, calling
  the pipeline continuation \<open>next()\<close>, behind which the proxy stands, and, when an error
  leaves the catch block, the rejection of the middleware's own promise.
\<close>

datatype event =
    TestCalled nat
  | SetVia string
  | SetMatched "string option"
  | LogMatch string
  | HandlerCalled nat
  | HandlerEffect nat effect
  | LogError string "string option"
  | Respond nat json
  | Next
  | Rejects js_thrown

definition override_failed :: "js_thrown \<Rightarrow> json" where
  "override_failed err =
     JObj [(''error'', JStr ''override_failed''), (''detail'', JStr (String_js err))]"

text \<open>\<open>res.headersSent\<close> after a handler's effects: it has sent a response.\<close>

fun is_write :: "effect \<Rightarrow> bool" where
  "is_write (Write s b) = True"
| "is_write CallNext = False"

definition headersSent :: "effect list \<Rightarrow> bool" where
  "headersSent es = list_ex is_write es"

text \<open>
  The error of Node's \<open>http\<close> module (code \<open>ERR_HTTP_HEADERS_SENT\<close>) when a header is
  set on a response that was already sent.
\<close>

definition headers_sent_error :: js_thrown where
  "headers_sent_error = ErrorObj ''Error'' ''Cannot set headers after they are sent to the client''"

text \<open>
  The catch block: \<open>logError\<close>, then \<open>res.status(500).json(...)\<close>, then return. The
  block does not look at \<open>res.headersSent\<close>: on a response that a handler has already
  sent, \<open>json\<close> throws when it sets the content type, nothing is written, and the error
  leaves the middleware as the rejection of its promise.
\<close>

definition catch_block :: "bool \<Rightarrow> override_rule \<Rightarrow> js_thrown \<Rightarrow> event list" where
  "catch_block sent r err =
     LogError (String_js err) (name r) #
     (if sent then [Rejects headers_sent_error] else [Respond 500 (override_failed err)])"

text \<open>
  The loop over \<open>overrides\<close>, from the rule at index \<open>i\<close>. A test that returns false
  moves on; a test that returns true runs the handler and returns; a throw of either
  runs the catch block and returns; the end of the list calls \<open>next()\<close>. When a test
  throws nothing has been sent yet: no handler has run, and a test is handed the request
  only.
\<close>

fun dispatch_from :: "nat \<Rightarrow> override_rule list \<Rightarrow> request \<Rightarrow> event list" where
  "dispatch_from i [] req = [Next]"
| "dispatch_from i (r # rest) req =
     TestCalled i #
     (case call_test r req of
        Inl err \<Rightarrow> catch_block False r err
      | Inr False \<Rightarrow> dispatch_from (Suc i) rest req
      | Inr True \<Rightarrow>
          [SetVia ''override'',
           SetMatched (name r),
           LogMatch (if truthy (name r) then the (name r) else ''override''),
           HandlerCalled i]
          @ map (HandlerEffect i) (fst (handler r req))
          @ (case snd (handler r req) of
               Returned \<Rightarrow> []
             | Threw err \<Rightarrow> catch_block (headersSent (fst (handler r req))) r err))"

definition dispatch :: "override_rule list \<Rightarrow> request \<Rightarrow> event list" where
  "dispatch overrides req = dispatch_from 0 overrides req"

subsection \<open>Reading a trace\<close>

fun test_of :: "event \<Rightarrow> nat list" where
  "test_of (TestCalled i) = [i]"
| "test_of _ = []"

fun handler_of :: "event \<Rightarrow> nat list" where
  "handler_of (HandlerCalled i) = [i]"
| "handler_of _ = []"

fun response_of :: "event \<Rightarrow> (nat \<times> json) list" where
  "response_of (Respond s b) = [(s, b)]"
| "response_of (HandlerEffect i (Write s b)) = [(s, b)]"
| "response_of _ = []"

fun dispatcher_response_of :: "event \<Rightarrow> (nat \<times> json) list" where
  "dispatcher_response_of (Respond s b) = [(s, b)]"
| "dispatcher_response_of _ = []"

fun continuation_of :: "event \<Rightarrow> event list" where
  "continuation_of Next = [Next]"
| "continuation_of (HandlerEffect i CallNext) = [HandlerEffect i CallNext]"
| "continuation_of _ = []"

text \<open>The indices of the rules whose test was evaluated, in order.\<close>

definition tests_evaluated :: "event list \<Rightarrow> nat list" where
  "tests_evaluated tr = concat (map test_of tr)"

text \<open>The indices of the rules whose handler was invoked, in order.\<close>

definition handlers_invoked :: "event list \<Rightarrow> nat list" where
  "handlers_invoked tr = concat (map handler_of tr)"

text \<open>Every response written for the request, by a handler or by the dispatcher.\<close>

definition responses :: "event list \<Rightarrow> (nat \<times> json) list" where
  "responses tr = concat (map response_of tr)"

text \<open>The responses the dispatcher itself wrote.\<close>

definition dispatcher_responses :: "event list \<Rightarrow> (nat \<times> json) list" where
  "dispatcher_responses tr = concat (map dispatcher_response_of tr)"

text \<open>
  Every call of the pipeline continuation, by the dispatcher (\<open>Next\<close>) or by a handler
  that was handed the same \<open>next\<close>: each one passes the request to the proxy stage.
\<close>

definition passthrough_calls :: "event list \<Rightarrow> event list" where
  "passthrough_calls tr = concat (map continuation_of tr)"

text \<open>
  The \<open>enabled\<close> the caller passed: \<open>cfg.enabled\<close>, or \<open>options?.enabled\<close>.
\<close>

fun enabled_arg :: "rule_args \<Rightarrow> bool option" where
  "enabled_arg (ConfigForm cfg) = cfg_enabled cfg"
| "enabled_arg (SignatureForm m p h d) =
     (case d of None \<Rightarrow> None | Some opts \<Rightarrow> opt_enabled opts)"

section \<open>Example requests, handlers and rules\<close>

definition getX :: request where
  "getX = \<lparr>req_method = ''GET'', req_path = ''/x''\<rparr>"

definition postX :: request where
  "postX = \<lparr>req_method = ''POST'', req_path = ''/x''\<rparr>"

definition handlerA :: rule_handler where
  "handlerA req = ([Write 200 (JObj [(''a'', JNum 1)])], Returned)"

definition handlerB :: rule_handler where
  "handlerB req = ([Write 200 (JObj [(''b'', JNum 2)])], Returned)"

definition handlerC :: rule_handler where
  "handlerC req = ([Write 200 (JObj [(''c'', JNum 3)])], Returned)"

text \<open>\<open>rule("GET", "/x", handler)\<close>, three times.\<close>

definition ruleA :: override_rule where
  "ruleA = projr (rule (SignatureForm (OneMethod ''GET'') (PathString ''/x'') handlerA None))"

definition ruleB :: override_rule where
  "ruleB = projr (rule (SignatureForm (OneMethod ''GET'') (PathString ''/x'') handlerB None))"

definition ruleC :: override_rule where
  "ruleC = projr (rule (SignatureForm (OneMethod ''GET'') (PathString ''/x'') handlerC None))"

definition boom :: js_thrown where
  "boom = ErrorObj ''Error'' ''boom''"

text \<open>\<open>rule({ test: () => { throw new Error("boom") }, handler })\<close>.\<close>

definition throwingTest :: "request \<Rightarrow> js_thrown + bool" where
  "throwingTest req = Inl boom"

definition throwingTestCfg :: rule_config where
  "throwingTestCfg =
     \<lparr>cfg_name = None, cfg_enabled = None, cfg_methods = None, cfg_path = None,
      cfg_test = Some throwingTest, cfg_handler = handlerA\<rparr>"

definition throwingTestRule :: override_rule where
  "throwingTestRule = projr (rule (ConfigForm throwingTestCfg))"










text \<open>\<open>handler: (req, res, next) => next()\<close>.\<close>

definition passthroughHandler :: rule_handler where
  "passthroughHandler req = ([CallNext], Returned)"

definition passthroughRule :: override_rule where
  "passthroughRule =
     projr (rule (SignatureForm (OneMethod ''GET'') (PathString ''/x'') passthroughHandler None))"

definition alwaysTrue :: "request \<Rightarrow> js_thrown + bool" where
  "alwaysTrue req = Inr True"

text \<open>
  \<open>rule({ name: "temp-off", enabled: false, methods: ["get"], path: "/x",
  test: () => true, handler })\<close>, the same rule with \<open>enabled\<close> left out and no path,
  and a config with neither path nor test.
\<close>

definition disabledCfg :: rule_config where
  "disabledCfg =
     \<lparr>cfg_name = Some ''temp-off'', cfg_enabled = Some False, cfg_methods = Some [''get''],
      cfg_path = Some (PathString ''/x''), cfg_test = Some alwaysTrue, cfg_handler = handlerA\<rparr>"

definition customCfg :: rule_config where
  "customCfg =
     \<lparr>cfg_name = None, cfg_enabled = None, cfg_methods = Some [''get''],
      cfg_path = None, cfg_test = Some alwaysTrue, cfg_handler = handlerA\<rparr>"

definition emptyCfg :: rule_config where
  "emptyCfg =
     \<lparr>cfg_name = None, cfg_enabled = None, cfg_methods = None,
      cfg_path = None, cfg_test = None, cfg_handler = handlerA\<rparr>"

definition disabledRule :: override_rule where
  "disabledRule = projr (rule (ConfigForm disabledCfg))"

definition customRule :: override_rule where
  "customRule = projr (rule (ConfigForm customCfg))"

text \<open>\<open>rule("GET", "/x", handler, { enabled: false })\<close>.\<close>

definition disabledSigRule :: override_rule where
  "disabledSigRule =
     projr (rule (SignatureForm (OneMethod ''GET'') (PathString ''/x'') handlerA
       (Some \<lparr>opt_name = None, opt_enabled = Some False\<rparr>)))"

text \<open>
  The rule of \<open>rules/_demo.ts\<close>:
  \<open>export const DemoHello = rule("GET", "/__demo/hello", handler)\<close>; the handler's
  timestamp is a fixed string here.
\<close>

definition demoHandler :: rule_handler where
  "demoHandler req =
     ([Write 200 (JObj [(''message'', JStr ''hello''),
                        (''ts'', JStr ''2025-01-01T00:00:00.000Z'')])],
      Returned)"

definition DemoHello :: override_rule where
  "DemoHello =
     projr (rule (SignatureForm (OneMethod ''GET'') (PathString ''/__demo/hello'')
       demoHandler None))"

text \<open>\<open>rule([], "/x", handler)\<close>: an empty method array is a \<open>Method[]\<close>.\<close>

definition emptyMethodsRule :: override_rule where
  "emptyMethodsRule =
     projr (rule (SignatureForm (MethodArray []) (PathString ''/x'') handlerA None))"

section \<open>Auxiliary facts\<close>

subsection \<open>Upper-casing\<close>

lemma upper_char_idem: "upper_char (upper_char c) = upper_char c"
  by (auto simp: upper_char_def Let_def)

lemma toUpperCase_idem: "toUpperCase (toUpperCase s) = toUpperCase s"
  by (simp add: toUpperCase_def upper_char_idem)

lemma toUpperCase_GET: "toUpperCase ''GET'' = ''GET''"
  by code_simp

lemma toUpperCase_POST: "toUpperCase ''POST'' = ''POST''"
  by code_simp

lemma toUpperCase_get: "toUpperCase ''get'' = ''GET''"
  by code_simp

subsection \<open>Reading traces piecewise\<close>

lemma tests_evaluated_simps [simp]:
  "tests_evaluated [] = []"
  "tests_evaluated (e # es) = test_of e @ tests_evaluated es"
  "tests_evaluated (xs @ ys) = tests_evaluated xs @ tests_evaluated ys"
  by (simp_all add: tests_evaluated_def)

lemma handlers_invoked_simps [simp]:
  "handlers_invoked [] = []"
  "handlers_invoked (e # es) = handler_of e @ handlers_invoked es"
  "handlers_invoked (xs @ ys) = handlers_invoked xs @ handlers_invoked ys"
  by (simp_all add: handlers_invoked_def)

lemma responses_simps [simp]:
  "responses [] = []"
  "responses (e # es) = response_of e @ responses es"
  "responses (xs @ ys) = responses xs @ responses ys"
  by (simp_all add: responses_def)

lemma dispatcher_responses_simps [simp]:
  "dispatcher_responses [] = []"
  "dispatcher_responses (e # es) = dispatcher_response_of e @ dispatcher_responses es"
  "dispatcher_responses (xs @ ys) = dispatcher_responses xs @ dispatcher_responses ys"
  by (simp_all add: dispatcher_responses_def)

lemma passthrough_calls_simps [simp]:
  "passthrough_calls [] = []"
  "passthrough_calls (e # es) = continuation_of e @ passthrough_calls es"
  "passthrough_calls (xs @ ys) = passthrough_calls xs @ passthrough_calls ys"
  by (simp_all add: passthrough_calls_def)

lemma observe_tests [simp]:
  "tests_evaluated (map TestCalled ns) = ns"
  "handlers_invoked (map TestCalled ns) = []"
  "responses (map TestCalled ns) = []"
  "dispatcher_responses (map TestCalled ns) = []"
  "passthrough_calls (map TestCalled ns) = []"
  by (induction ns) simp_all

lemma observe_effects [simp]:
  "tests_evaluated (map (HandlerEffect i) es) = []"
  "handlers_invoked (map (HandlerEffect i) es) = []"
  "dispatcher_responses (map (HandlerEffect i) es) = []"
  by (induction es) simp_all

lemma observe_catch [simp]:
  "tests_evaluated (catch_block sent r err) = []"
  "handlers_invoked (catch_block sent r err) = []"
  "responses (catch_block sent r err) = (if sent then [] else [(500, override_failed err)])"
  "dispatcher_responses (catch_block sent r err) =
     (if sent then [] else [(500, override_failed err)])"
  "passthrough_calls (catch_block sent r err) = []"
  by (simp_all add: catch_block_def)



subsection \<open>The shape of a dispatch\<close>

text \<open>While the tests return false the loop only moves on.\<close>

lemma dispatch_from_skip:
  "i \<le> length R \<Longrightarrow> \<forall>k<i. call_test (R ! k) req = Inr False \<Longrightarrow>
   dispatch_from n R req = map TestCalled [n..<n + i] @ dispatch_from (n + i) (drop i R) req"
proof (induction R arbitrary: i n)
  case Nil
  then show ?case by simp
next
  case (Cons r rest)
  show ?case
  proof (cases i)
    case 0
    then show ?thesis by simp
  next
    case (Suc i')
    from Cons.prems Suc have r_false: "call_test r req = Inr False" by auto
    from Cons.prems Suc have le: "i' \<le> length rest" by simp
    from Cons.prems Suc have rest_false: "\<forall>k<i'. call_test (rest ! k) req = Inr False" by auto
    from Cons.IH [OF le rest_false, of "Suc n"]
    have "dispatch_from (Suc n) rest req =
          map TestCalled [Suc n..<Suc n + i'] @ dispatch_from (Suc n + i') (drop i' rest) req" .
    with r_false Suc show ?thesis by (simp add: upt_conv_Cons)
  qed
qed


text \<open>A handler is invoked only for the first rule whose test returns true.\<close>

lemma handler_called_matched:
  "HandlerCalled m \<in> set (dispatch_from n R req) \<Longrightarrow>
   n \<le> m \<and> m < n + length R \<and> (\<forall>k<m - n. call_test (R ! k) req = Inr False) \<and>
   call_test (R ! (m - n)) req = Inr True"
proof (induction R arbitrary: n)
  case Nil
  then show ?case by simp
next
  case (Cons r rest)
  show ?case
  proof (cases "call_test r req")
    case (Inl err)
    with Cons.prems show ?thesis by (simp add: catch_block_def)
  next
    case (Inr b)
    show ?thesis
    proof (cases b)
      case True
      with Inr Cons.prems have "m = n"
        by (auto simp: catch_block_def split: completion.splits if_splits)
      with True Inr show ?thesis by simp
    next
      case False
      with Inr Cons.prems have later: "HandlerCalled m \<in> set (dispatch_from (Suc n) rest req)"
        by simp
      from Cons.IH [OF later]
      have ih: "Suc n \<le> m" "m < Suc n + length rest"
        "\<forall>k<m - Suc n. call_test (rest ! k) req = Inr False"
        "call_test (rest ! (m - Suc n)) req = Inr True" by auto
      have "\<forall>k<m - n. call_test ((r # rest) ! k) req = Inr False"
      proof (intro allI impI)
        fix k assume "k < m - n"
        then show "call_test ((r # rest) ! k) req = Inr False"
          using False Inr ih by (cases k) auto
      qed
      moreover from ih have "m - n = Suc (m - Suc n)" by arith
      then have "(r # rest) ! (m - n) = rest ! (m - Suc n)" by simp
      ultimately show ?thesis using ih by simp
    qed
  qed
qed

lemma dispatch_reach:
  assumes "i < length R" and "\<forall>k<i. call_test (R ! k) req = Inr False"
  shows "dispatch R req =
         map TestCalled [0..<i] @ dispatch_from i (R ! i # drop (Suc i) R) req"
proof -
  from assms have "dispatch_from 0 R req =
      map TestCalled [0..<0 + i] @ dispatch_from (0 + i) (drop i R) req"
    by (intro dispatch_from_skip) simp_all
  with assms(1) show ?thesis by (simp add: dispatch_def Cons_nth_drop_Suc)
qed

text \<open>The three ways a dispatch ends.\<close>

lemma matched_trace:
  assumes "i < length R" and "\<forall>k<i. call_test (R ! k) req = Inr False"
    and "call_test (R ! i) req = Inr True"
  shows "dispatch R req =
    map TestCalled [0..<Suc i] @
    [SetVia ''override'', SetMatched (name (R ! i)),
     LogMatch (if truthy (name (R ! i)) then the (name (R ! i)) else ''override''),
     HandlerCalled i] @
    map (HandlerEffect i) (fst (handler (R ! i) req)) @
    (case snd (handler (R ! i) req) of
       Returned \<Rightarrow> []
     | Threw err \<Rightarrow> catch_block (headersSent (fst (handler (R ! i) req))) (R ! i) err)"
  using assms(3) by (simp add: dispatch_reach [OF assms(1,2)])


lemma no_match_trace:
  assumes "\<forall>r\<in>set R. call_test r req = Inr False"
  shows "dispatch R req = map TestCalled [0..<length R] @ [Next]"
proof -
  from assms have "\<forall>k<length R. call_test (R ! k) req = Inr False" by simp
  then have "dispatch_from 0 R req =
      map TestCalled [0..<0 + length R] @ dispatch_from (0 + length R) (drop (length R) R) req"
    by (intro dispatch_from_skip) simp_all
  then show ?thesis by (simp add: dispatch_def)
qed

text \<open>
  Whatever a handler did before it threw, the dispatcher then never calls \<open>next()\<close> and
  evaluates no further test; it writes the one error response unless the handler had
  already sent a response, and then it writes none.
\<close>

lemma dispatcher_catches_every_throw:
  assumes "HandlerCalled i \<in> set (dispatch R req)" and "snd (handler (R ! i) req) = Threw err"
  shows "dispatcher_responses (dispatch R req) =
           (if headersSent (fst (handler (R ! i) req)) then [] else [(500, override_failed err)]) \<and>
         Next \<notin> set (dispatch R req) \<and>
         tests_evaluated (dispatch R req) = [0..<Suc i]"
proof -
  from handler_called_matched [of i 0 R req] assms(1)
  have len: "i < length R" and before: "\<forall>k<i. call_test (R ! k) req = Inr False"
    and hit: "call_test (R ! i) req = Inr True"
    by (simp_all add: dispatch_def)
  show ?thesis
    by (auto simp add: matched_trace [OF len before hit] assms(2) catch_block_def
        simp del: upt_Suc)
qed

subsection \<open>The example rules\<close>

lemma build_ruleA:
  "rule (SignatureForm (OneMethod ''GET'') (PathString ''/x'') handlerA None) = Inr ruleA"
  by (simp add: ruleA_def)

lemma build_disabledRule: "rule (ConfigForm disabledCfg) = Inr disabledRule"
  by (simp add: disabledRule_def disabledCfg_def Let_def)

lemma build_customRule: "rule (ConfigForm customCfg) = Inr customRule"
  by (simp add: customRule_def customCfg_def Let_def)

lemma build_disabledSigRule:
  "rule (SignatureForm (OneMethod ''GET'') (PathString ''/x'') handlerA
     (Some \<lparr>opt_name = None, opt_enabled = Some False\<rparr>)) = Inr disabledSigRule"
  by (simp add: disabledSigRule_def)

lemma call_ruleA: "call_test ruleA getX = Inr True"
  by (simp add: ruleA_def call_test_def getX_def toUpperCase_GET)

lemma call_ruleB: "call_test ruleB getX = Inr True"
  by (simp add: ruleB_def call_test_def getX_def toUpperCase_GET)

lemma call_ruleC: "call_test ruleC getX = Inr True"
  by (simp add: ruleC_def call_test_def getX_def toUpperCase_GET)

lemma call_ruleA_post: "call_test ruleA postX = Inr False"
  by (simp add: ruleA_def call_test_def postX_def toUpperCase_GET toUpperCase_POST)

lemma call_ruleB_post: "call_test ruleB postX = Inr False"
  by (simp add: ruleB_def call_test_def postX_def toUpperCase_GET toUpperCase_POST)

lemma call_throwingTestRule: "call_test throwingTestRule getX = Inl boom"
  by (simp add: throwingTestRule_def throwingTestCfg_def throwingTest_def call_test_def
      getX_def toUpperCase_GET Let_def)



lemma call_passthroughRule: "call_test passthroughRule getX = Inr True"
  by (simp add: passthroughRule_def call_test_def getX_def toUpperCase_GET)

lemma call_disabledRule: "call_test disabledRule getX = Inr False"
  by (simp add: disabledRule_def disabledCfg_def Let_def call_test_def)







lemma handler_passthroughRule: "handler passthroughRule getX = ([CallNext], Returned)"
  by (simp add: passthroughRule_def passthroughHandler_def)

section \<open>The dispatcher\<close>

text \<open>
  C1 (amended). For every Registry and request, if Rule \<open>i\<close> and Rule \<open>j\<close> (\<open>i < j\<close>)
  both have predicates that return true for the request, and the predicate of every Rule
  before \<open>i\<close> returns false, then the dispatcher invokes only Rule \<open>i\<close>'s handler:
  Rule \<open>j\<close>'s handler is never invoked and Rule \<open>j\<close>'s predicate is never evaluated.
\<close>

theorem first_match_only:
  assumes "i < j" and "j < length R"
    and "call_test (R ! i) req = Inr True"
    and "call_test (R ! j) req = Inr True"
    and "\<forall>k<i. call_test (R ! k) req = Inr False"
  shows "handlers_invoked (dispatch R req) = [i] \<and>
         j \<notin> set (handlers_invoked (dispatch R req)) \<and>
         j \<notin> set (tests_evaluated (dispatch R req))"
proof -
  from assms(1,2) have len: "i < length R" by simp
  note tr = matched_trace [OF len assms(5) assms(3)]
  have h: "handlers_invoked (dispatch R req) = [i]"
    by (simp add: tr split: completion.splits)
  have t: "tests_evaluated (dispatch R req) = [0..<Suc i]"
    by (simp add: tr split: completion.splits del: upt_Suc)
  from h t assms(1) show ?thesis by simp
qed

text \<open>
  The scenario of two rules for \<open>GET /x\<close>: Rule A answers, Rule B is neither tested nor
  invoked.
\<close>

theorem first_match_only_witness:
  "handlers_invoked (dispatch [ruleA, ruleB] getX) = [0] \<and>
   1 \<notin> set (handlers_invoked (dispatch [ruleA, ruleB] getX)) \<and>
   1 \<notin> set (tests_evaluated (dispatch [ruleA, ruleB] getX))"
  using first_match_only [of 0 1 "[ruleA, ruleB]" getX]
  by (simp add: call_ruleA call_ruleB)

text \<open>
  C1 as stated, for any two matching rules \<open>i < j\<close>, fails when an earlier rule matches
  too: of three rules for \<open>GET /x\<close>, with \<open>i = 1\<close> and \<open>j = 2\<close>, the handler invoked is
  that of rule 0, not that of rule 1.
\<close>

theorem later_match_counterexample:
  "(1::nat) < 2 \<and> 2 < length [ruleA, ruleB, ruleC] \<and>
   call_test ([ruleA, ruleB, ruleC] ! 1) getX = Inr True \<and>
   call_test ([ruleA, ruleB, ruleC] ! 2) getX = Inr True \<and>
   handlers_invoked (dispatch [ruleA, ruleB, ruleC] getX) = [0] \<and>
   handlers_invoked (dispatch [ruleA, ruleB, ruleC] getX) \<noteq> [1]"
  by (simp add: call_ruleA call_ruleB call_ruleC dispatch_def split: completion.splits)

text \<open>
  C2 (amended). For every Registry (the empty one included) and every request, if every
  Rule's predicate returns false for the request (none returns true and none throws),
  the dispatcher evaluates each predicate once, in order, invokes no handler, writes no
  response and calls the pipeline continuation, once, as its last step.
\<close>

theorem no_match_passthrough:
  assumes "\<forall>r\<in>set R. call_test r req = Inr False"
  shows "dispatch R req = map TestCalled [0..<length R] @ [Next] \<and>
         handlers_invoked (dispatch R req) = [] \<and>
         responses (dispatch R req) = [] \<and>
         passthrough_calls (dispatch R req) = [Next]"
  by (simp add: no_match_trace [OF assms])

text \<open>The empty Registry, and two \<open>GET\<close> rules against a \<open>POST\<close>.\<close>

theorem no_match_passthrough_witness:
  "dispatch [] getX = [Next] \<and>
   dispatch [ruleA, ruleB] postX = [TestCalled 0, TestCalled 1, Next] \<and>
   handlers_invoked (dispatch [ruleA, ruleB] postX) = [] \<and>
   passthrough_calls (dispatch [ruleA, ruleB] postX) = [Next]"
proof -
  have two: "[0..<length [ruleA, ruleB]] = [0, 1]" by (simp add: upt_rec)
  show ?thesis
    using no_match_passthrough [of "[]" getX] no_match_passthrough [of "[ruleA, ruleB]" postX]
    by (simp add: call_ruleA_post call_ruleB_post two)
qed

text \<open>
  C2 as stated, for a Registry in which no predicate returns true, fails when a predicate
  throws: the only rule's predicate does not return true, no handler is invoked, and yet
  the continuation is not called (the catch block answers instead).
\<close>

theorem throwing_test_counterexample:
  "call_test throwingTestRule getX \<noteq> Inr True \<and>
   handlers_invoked (dispatch [throwingTestRule] getX) = [] \<and>
   passthrough_calls (dispatch [throwingTestRule] getX) = [] \<and>
   Next \<notin> set (dispatch [throwingTestRule] getX)"
  by (simp add: dispatch_def call_throwingTestRule catch_block_def)




text \<open>
  C9. If the handler of the matched Rule calls the continuation \<open>next\<close>, the dispatcher
  still stops scanning: the predicates evaluated are those of the rules up to the matched
  one and no later one, no other handler is invoked, the dispatcher does not call
  \<open>next()\<close> again, and the handler's call is a call of the pipeline continuation itself,
  which hands the request to the stage after the dispatcher.
\<close>

theorem handler_next_stops_scan:
  assumes "HandlerCalled i \<in> set (dispatch R req)"
    and "CallNext \<in> set (fst (handler (R ! i) req))"
  shows "tests_evaluated (dispatch R req) = [0..<Suc i] \<and>
         handlers_invoked (dispatch R req) = [i] \<and>
         Next \<notin> set (dispatch R req) \<and>
         HandlerEffect i CallNext \<in> set (passthrough_calls (dispatch R req))"
proof -
  from handler_called_matched [of i 0 R req] assms(1)
  have len: "i < length R" and before: "\<forall>k<i. call_test (R ! k) req = Inr False"
    and hit: "call_test (R ! i) req = Inr True"
    by (simp_all add: dispatch_def)
  note tr = matched_trace [OF len before hit]
  have t: "tests_evaluated (dispatch R req) = [0..<Suc i]"
    by (simp add: tr split: completion.splits del: upt_Suc)
  have h: "handlers_invoked (dispatch R req) = [i]"
    by (simp add: tr split: completion.splits)
  have n: "Next \<notin> set (dispatch R req)"
    by (auto simp add: tr catch_block_def split: completion.splits)
  have "HandlerEffect i CallNext \<in> set (passthrough_calls (map (HandlerEffect i) es))"
    if "CallNext \<in> set es" for es
    using that by (induction es) auto
  with assms(2) have p: "HandlerEffect i CallNext \<in> set (passthrough_calls (dispatch R req))"
    by (simp add: tr)
  from t h n p show ?thesis by simp
qed

text \<open>A rule whose handler only calls \<open>next()\<close>, ahead of Rule A, which would match.\<close>

theorem handler_next_stops_scan_witness:
  "dispatch [passthroughRule, ruleA] getX =
     [TestCalled 0, SetVia ''override'', SetMatched (Some ''/x''), LogMatch ''/x'',
      HandlerCalled 0, HandlerEffect 0 CallNext] \<and>
   call_test ruleA getX = Inr True \<and>
   tests_evaluated (dispatch [passthroughRule, ruleA] getX) = [0] \<and>
   handlers_invoked (dispatch [passthroughRule, ruleA] getX) = [0] \<and>
   Next \<notin> set (dispatch [passthroughRule, ruleA] getX) \<and>
   HandlerEffect 0 CallNext \<in> set (passthrough_calls (dispatch [passthroughRule, ruleA] getX))"
proof -
  have tr: "dispatch [passthroughRule, ruleA] getX =
     [TestCalled 0, SetVia ''override'', SetMatched (Some ''/x''), LogMatch ''/x'',
      HandlerCalled 0, HandlerEffect 0 CallNext]"
    by (simp add: dispatch_def call_passthroughRule handler_passthroughRule)
       (simp add: passthroughRule_def)
  have h: "HandlerCalled 0 \<in> set (dispatch [passthroughRule, ruleA] getX)"
    by (simp add: tr)
  from handler_next_stops_scan [of 0 "[passthroughRule, ruleA]" getX] h
  have "tests_evaluated (dispatch [passthroughRule, ruleA] getX) = [0..<Suc 0] \<and>
         handlers_invoked (dispatch [passthroughRule, ruleA] getX) = [0] \<and>
         Next \<notin> set (dispatch [passthroughRule, ruleA] getX) \<and>
         HandlerEffect 0 CallNext \<in> set (passthrough_calls (dispatch [passthroughRule, ruleA] getX))"
    by (simp add: handler_passthroughRule)
  with tr call_ruleA show ?thesis by simp
qed

section \<open>The rule builder\<close>

text \<open>What both forms store in the rule they return.\<close>

lemma rule_config_fields:
  assumes "rule (ConfigForm cfg) = Inr r"
  shows "enabled r = Some (cfg_enabled cfg \<noteq> Some False)"
    and "methods r = map toUpperCase
           (case cfg_methods cfg of
              None \<Rightarrow> [''GET'']
            | Some [] \<Rightarrow> [''GET'']
            | Some (m # ms) \<Rightarrow> m # ms)"
    and "handler r = cfg_handler cfg"
  using assms by (auto simp: Let_def split: if_splits)

lemma rule_signature_fields:
  assumes "rule (SignatureForm m p h d) = Inr r"
  shows "enabled r = Some (enabled_arg (SignatureForm m p h d) \<noteq> Some False)"
    and "methods r = map toUpperCase (case m of MethodArray ms \<Rightarrow> ms | OneMethod x \<Rightarrow> [x])"
    and "name r = Some (path_toString p)"
    and "handler r = h"
  using assms by (auto simp: Let_def)

text \<open>
  C4. For every Rule constructed by either builder form with \<open>enabled\<close> set to false,
  and for every request, the Rule's test returns false (on any receiver, so also as the
  dispatcher calls it), whatever the method, the path specifier or the custom test.
\<close>

theorem disabled_rule_never_matches:
  assumes "rule args = Inr r" and "enabled_arg args = Some False"
  shows "enabled r = Some False \<and> test r this req = Inr False \<and> call_test r req = Inr False"
proof (cases args)
  case (ConfigForm cfg)
  with assms show ?thesis
    by (auto simp: Let_def call_test_def split: if_splits option.splits)
next
  case (SignatureForm m p h d)
  with assms show ?thesis
    by (auto simp: Let_def call_test_def split: option.splits)
qed

text \<open>
  A disabled config rule whose method, path and custom test all fit \<open>GET /x\<close>, and a
  disabled signature rule for \<open>GET /x\<close>.
\<close>

theorem disabled_rule_never_matches_witness:
  "call_test disabledRule getX = Inr False \<and> call_test disabledSigRule getX = Inr False \<and>
   cfg_test disabledCfg = Some alwaysTrue \<and> alwaysTrue getX = Inr True"
proof -
  have ec: "enabled_arg (ConfigForm disabledCfg) = Some False"
    by (simp add: disabledCfg_def)
  have es: "enabled_arg (SignatureForm (OneMethod ''GET'') (PathString ''/x'') handlerA
             (Some \<lparr>opt_name = None, opt_enabled = Some False\<rparr>)) = Some False"
    by simp
  from disabled_rule_never_matches [OF build_disabledRule ec]
    disabled_rule_never_matches [OF build_disabledSigRule es]
  show ?thesis by (simp add: disabledCfg_def alwaysTrue_def)
qed

text \<open>
  C5. For every Rule built by the config form with a custom test, the Rule's test returns
  true for a request exactly when the Rule is enabled and the request's upper-cased
  method is among the Rule's methods and the custom test returns true for the request.
\<close>

theorem custom_test_augments_guard:
  assumes "rule (ConfigForm cfg) = Inr r" and "cfg_test cfg = Some custom"
  shows "(call_test r req = Inr True) =
         (enabled r = Some True \<and> toUpperCase (req_method req) \<in> set (methods r) \<and>
          custom req = Inr True)"
  using assms by (auto simp: Let_def call_test_def split: if_splits)

text \<open>
  The custom test \<open>() => true\<close> under \<open>methods: ["get"]\<close>: a \<open>GET\<close> matches, a
  \<open>POST\<close> does not, and the disabled rule does not.
\<close>

theorem custom_test_augments_guard_witness:
  "call_test customRule getX = Inr True \<and>
   call_test customRule postX \<noteq> Inr True \<and>
   call_test disabledRule getX \<noteq> Inr True"
proof -
  have tc: "cfg_test customCfg = Some alwaysTrue" by (simp add: customCfg_def)
  have td: "cfg_test disabledCfg = Some alwaysTrue" by (simp add: disabledCfg_def)
  have mc: "methods customRule = [''GET'']"
    by (simp add: customRule_def customCfg_def Let_def toUpperCase_get)
  have ec: "enabled customRule = Some True"
    by (simp add: customRule_def customCfg_def Let_def)
  have ed: "enabled disabledRule = Some False"
    by (simp add: disabledRule_def disabledCfg_def Let_def)
  show ?thesis
    using custom_test_augments_guard [OF build_customRule tc, of getX]
      custom_test_augments_guard [OF build_customRule tc, of postX]
      custom_test_augments_guard [OF build_disabledRule td, of getX]
    by (simp add: mc ec ed getX_def postX_def toUpperCase_GET toUpperCase_POST alwaysTrue_def)
qed

text \<open>
  C6. The config form called with neither a path nor a test throws
  \<open>Error("rule(config) requires either path or test")\<close> and returns no Rule.
\<close>

theorem config_needs_path_or_test:
  assumes "cfg_path cfg = None" and "cfg_test cfg = None"
  shows "rule (ConfigForm cfg) =
         Inl (ErrorObj ''Error'' ''rule(config) requires either path or test'')"
  using assms by (simp add: Let_def)

theorem config_needs_path_or_test_witness:
  "rule (ConfigForm emptyCfg) =
     Inl (ErrorObj ''Error'' ''rule(config) requires either path or test'') \<and>
   String_js (projl (rule (ConfigForm emptyCfg))) =
     ''Error: rule(config) requires either path or test''"
proof -
  have p: "cfg_path emptyCfg = None" and t: "cfg_test emptyCfg = None"
    by (simp_all add: emptyCfg_def)
  from config_needs_path_or_test [OF p t] show ?thesis by simp
qed

text \<open>
  C10. For every Rule produced by either builder form, assigning any value to the
  returned Rule's \<open>enabled\<close> field leaves the result of \<open>rule.test(req)\<close> unchanged on
  every request: the test reads the constant captured when the Rule was built, not the
  field.
\<close>

theorem enabled_is_captured:
  assumes "rule args = Inr r"
  shows "call_test (r\<lparr>enabled := e\<rparr>) req = call_test r req"
proof (cases args)
  case (ConfigForm cfg)
  with assms show ?thesis
    by (auto simp: Let_def call_test_def split: if_splits option.splits)
next
  case (SignatureForm m p h d)
  with assms show ?thesis
    by (auto simp: Let_def call_test_def)
qed

text \<open>
  Rule A still matches after \<open>enabled = false\<close> is assigned, and the disabled rule still
  does not after \<open>enabled = true\<close> is.
\<close>

theorem enabled_is_captured_witness:
  "call_test (ruleA\<lparr>enabled := Some False\<rparr>) getX = Inr True \<and>
   call_test (disabledRule\<lparr>enabled := Some True\<rparr>) getX = Inr False"
proof -
  from enabled_is_captured [OF build_ruleA, of "Some False" getX]
    enabled_is_captured [OF build_disabledRule, of "Some True" getX]
  show ?thesis by (simp add: call_ruleA call_disabledRule)
qed

section \<open>Display names and method lists\<close>

text \<open>
  The name a config-form rule carries in the Registry: the given name, else the path's
  string form, else the export name.
\<close>

lemma display_name_config:
  assumes "rule (ConfigForm cfg) = Inr r"
  shows "name (fst (finalize rel \<lparr>col_rule = r, col_exportName = e\<rparr>)) =
     (if truthy (cfg_name cfg) then cfg_name cfg
      else if truthy (map_option path_toString (cfg_path cfg))
           then map_option path_toString (cfg_path cfg)
      else if truthy e then e else None)"
  using assms by (auto simp: Let_def finalize_def js_or_def split: if_splits)

text \<open>
  The name a signature-form rule carries in the Registry: the path's string form unless
  that is empty; a name in the options is not read.
\<close>

lemma display_name_signature:
  assumes "rule (SignatureForm m p h d) = Inr r"
  shows "name (fst (finalize rel \<lparr>col_rule = r, col_exportName = e\<rparr>)) =
     (if path_toString p \<noteq> [] then Some (path_toString p)
      else if truthy e then e else Some [])"
  using assms by (auto simp: Let_def finalize_def)

text \<open>
  C7, at the rule of \<open>rules/_demo.ts\<close>. The rule is exported as \<open>DemoHello\<close> and no name
  is supplied, so by the stated precedence its display name would be the export name;
  the loader keeps the path string \<open>/__demo/hello\<close> that the builder stored, because it
  assigns the export name only to a rule without a name.
\<close>

theorem export_name_not_used_for_demo:
  "name (fst (finalize ''_demo.ts''
       \<lparr>col_rule = DemoHello, col_exportName = Some ''DemoHello''\<rparr>)) = Some ''/__demo/hello''"
  by (simp add: finalize_def DemoHello_def Let_def)

text \<open>The config form never returns an empty method list.\<close>

lemma config_methods_nonempty:
  "rule (ConfigForm cfg) = Inr r \<Longrightarrow> methods r \<noteq> []"
  by (auto simp: Let_def split: if_splits option.splits list.splits)

text \<open>Every method of a built rule is upper-cased.\<close>

lemma methods_uppercase:
  "rule args = Inr r \<Longrightarrow> m \<in> set (methods r) \<Longrightarrow> toUpperCase m = m"
  by (cases args) (auto simp: Let_def toUpperCase_idem split: if_splits)

text \<open>
  C8, at \<open>rule([], "/x", handler)\<close>. The signature form maps the given array as it is,
  so an empty method array gives a Rule whose method list is empty.
\<close>

theorem empty_method_array_gives_empty_methods:
  "rule (SignatureForm (MethodArray []) (PathString ''/x'') handlerA None) = Inr emptyMethodsRule \<and>
   methods emptyMethodsRule = []"
  by (simp add: emptyMethodsRule_def)

end
